theory Spec2Isabelle
  imports Complex_Main
begin

section \<open>Binary64 floating-point values\<close>

text \<open>
  The prices, predictions and balances of \<^verbatim>\<open>modules/simulation.py\<close> are numpy
  \<^verbatim>\<open>float64\<close> values. A value is not-a-number, an infinity, or a finite real;
  the finite values that binary64 can represent are those that rounding leaves
  alone (\<open>is_f64\<close> below), and every operation rounds its result to one of them.
  The two zeros of binary64 are one value here (\<open>Fin 0\<close>): Python compares them
  equal, and the only operation that tells them apart, the sign of a quotient by
  zero, takes the divisor as \<open>+0.0\<close>.
\<close>

datatype f64 = NaN | PInf | NInf | Fin real

datatype py_error = IndexError | KeyError | ValueError

text \<open>
  Rounding to nearest, ties to even, at 53 bits of precision. \<open>exponent x\<close> is
  \<open>\<lfloor>log\<^sub>2 \<bar>x\<bar>\<rfloor>\<close>, not below \<open>-1022\<close> (the subnormal range shares the exponent
  of the smallest normal numbers) and not above \<open>1024\<close> (where every result
  overflows). The unit in the last place of \<open>x\<close> is \<open>2\<close> to the power
  \<open>exponent x - 52\<close>.
\<close>

fun exp_down :: "nat \<Rightarrow> real \<Rightarrow> int" where
  "exp_down 0 x = 0"
| "exp_down (Suc n) x = (if 1 \<le> x then 0 else exp_down n (2 * x) - 1)"

fun exp_up :: "nat \<Rightarrow> real \<Rightarrow> int" where
  "exp_up 0 x = 0"
| "exp_up (Suc n) x = (if x < 2 then 0 else exp_up n (x / 2) + 1)"

definition exponent :: "real \<Rightarrow> int" where
  "exponent x = (if \<bar>x\<bar> < 1 then exp_down 1022 \<bar>x\<bar> else exp_up 1024 \<bar>x\<bar>)"

definition round_even :: "real \<Rightarrow> int" where
  "round_even x =
     (let f = \<lfloor>x\<rfloor>; d = x - of_int f
      in if d < 1 / 2 then f else if 1 / 2 < d then f + 1 else if even f then f else f + 1)"

definition rnd :: "real \<Rightarrow> f64" where
  "rnd x =
     (let u = 2 powi (exponent x - 52);
          r = of_int (round_even (x / u)) * u
      in if 2 ^ 1024 \<le> \<bar>r\<bar> then (if 0 < x then PInf else NInf) else Fin r)"

text \<open>A finite value is a binary64 number when rounding leaves it alone.\<close>

fun is_f64 :: "f64 \<Rightarrow> bool" where
  "is_f64 (Fin x) = (rnd x = Fin x)"
| "is_f64 _ = True"

definition isnan :: "f64 \<Rightarrow> bool" where
  "isnan a = (a = NaN)"

fun is_zero :: "f64 \<Rightarrow> bool" where
  "is_zero (Fin x) = (x = 0)"
| "is_zero _ = False"

fun is_neg :: "f64 \<Rightarrow> bool" where
  "is_neg (Fin x) = (x < 0)"
| "is_neg NInf = True"
| "is_neg _ = False"

definition signed_inf :: "bool \<Rightarrow> f64" where
  "signed_inf neg = (if neg then NInf else PInf)"

text \<open>Comparisons: every comparison with not-a-number is false.\<close>

fun flt :: "f64 \<Rightarrow> f64 \<Rightarrow> bool" where
  "flt (Fin x) (Fin y) = (x < y)"
| "flt (Fin x) PInf = True"
| "flt NInf (Fin y) = True"
| "flt NInf PInf = True"
| "flt _ _ = False"

definition fgt :: "f64 \<Rightarrow> f64 \<Rightarrow> bool" where
  "fgt a b = flt b a"

fun fle :: "f64 \<Rightarrow> f64 \<Rightarrow> bool" where
  "fle (Fin x) (Fin y) = (x \<le> y)"
| "fle (Fin x) PInf = True"
| "fle NInf (Fin y) = True"
| "fle NInf PInf = True"
| "fle PInf PInf = True"
| "fle NInf NInf = True"
| "fle _ _ = False"

text \<open>
  Multiplication and division. numpy scalars do not raise on a zero divisor: the
  quotient is an infinity, or not-a-number for \<open>0 / 0\<close>.
\<close>

fun fmul :: "f64 \<Rightarrow> f64 \<Rightarrow> f64" where
  "fmul (Fin x) (Fin y) = rnd (x * y)"
| "fmul a b =
     (if isnan a \<or> isnan b \<or> is_zero a \<or> is_zero b then NaN
      else signed_inf (is_neg a \<noteq> is_neg b))"

fun fdiv :: "f64 \<Rightarrow> f64 \<Rightarrow> f64" where
  "fdiv (Fin x) (Fin y) =
     (if y = 0 then (if x = 0 then NaN else signed_inf (x < 0)) else rnd (x / y))"
| "fdiv (Fin x) b = (if isnan b then NaN else Fin 0)"
| "fdiv a (Fin y) = (if isnan a then NaN else signed_inf (is_neg a \<noteq> (y < 0)))"
| "fdiv a b = NaN"

section \<open>Profit simulation\<close>

text \<open>
  A \<^verbatim>\<open>for i in range(n)\<close> loop over a state: the body runs at each index in
  turn, and an exception raised by the body ends the loop.
\<close>

fun for_loop :: "(nat \<Rightarrow> 's \<Rightarrow> py_error + 's) \<Rightarrow> nat list \<Rightarrow> 's \<Rightarrow> py_error + 's" where
  "for_loop body [] s = Inr s"
| "for_loop body (i # is) s =
     (case body i s of Inl e \<Rightarrow> Inl e | Inr s' \<Rightarrow> for_loop body is s')"

definition min_price :: f64 where
  "min_price = Fin 1"

text \<open>
  The body of the loop of \<^verbatim>\<open>simulate_profit\<close>, from the balance before day \<open>i\<close>
  to the balance after it. Reading an array past its end raises
  \<^verbatim>\<open>IndexError\<close>; every \<^verbatim>\<open>continue\<close> leaves the balance as it is.
\<close>

definition simulate_profit_body :: "f64 list \<Rightarrow> f64 list \<Rightarrow> nat \<Rightarrow> f64 \<Rightarrow> py_error + f64" where
  "simulate_profit_body y_true y_pred i balance =
     (if length y_true \<le> i + 1 \<or> length y_pred \<le> i + 1 then Inl IndexError
      else
        let today_real = y_true ! i;
            tomorrow_real = y_true ! (i + 1);
            tomorrow_pred = y_pred ! (i + 1)
        in if isnan today_real \<or> isnan tomorrow_real \<or> isnan tomorrow_pred then Inr balance
           else if fle today_real min_price \<or> fle tomorrow_real min_price then Inr balance
           else if fgt tomorrow_pred today_real then
             (let change = fdiv tomorrow_real today_real
              in if fgt change (Fin 10) then Inr balance
                 else Inr (fmul balance change))
           else Inr balance)"

text \<open>
  The balance of \<^verbatim>\<open>simulate_profit\<close> when its loop ends, before the rounding.
  \<^verbatim>\<open>range(len(y_true) - 1)\<close> is empty for an empty array, as the truncating
  subtraction of \<open>nat\<close> makes it here.
\<close>

definition simulate_profit_loop :: "f64 list \<Rightarrow> f64 list \<Rightarrow> f64 \<Rightarrow> py_error + f64" where
  "simulate_profit_loop y_true y_pred initial_balance =
     for_loop (simulate_profit_body y_true y_pred) [0..<length y_true - 1] initial_balance"

text \<open>
  \<^verbatim>\<open>round(balance, 2)\<close> is Python's own; it is the parameter \<open>round2\<close>.
\<close>

definition simulate_profit :: "(f64 \<Rightarrow> f64) \<Rightarrow> f64 list \<Rightarrow> f64 list \<Rightarrow> f64 \<Rightarrow> py_error + f64" where
  "simulate_profit round2 y_true y_pred initial_balance =
     (case simulate_profit_loop y_true y_pred initial_balance of
        Inl e \<Rightarrow> Inl e
      | Inr balance \<Rightarrow> Inr (round2 balance))"

text \<open>
  The body of the loop of \<^verbatim>\<open>simulate_profit_series\<close>: the state is the balance
  and the list of balances so far.
\<close>

definition simulate_profit_series_body ::
    "f64 list \<Rightarrow> f64 list \<Rightarrow> nat \<Rightarrow> f64 \<times> f64 list \<Rightarrow> py_error + f64 \<times> f64 list" where
  "simulate_profit_series_body y_true y_pred i st =
     (let balance = fst st; balances = snd st
      in if length y_true \<le> i + 1 \<or> length y_pred \<le> i + 1 then Inl IndexError
         else
           let today_real = y_true ! i;
               tomorrow_real = y_true ! (i + 1);
               tomorrow_pred = y_pred ! (i + 1)
           in if isnan today_real \<or> isnan tomorrow_real \<or> isnan tomorrow_pred
              then Inr (balance, balances @ [balance])
              else if fle today_real min_price \<or> fle tomorrow_real min_price
              then Inr (balance, balances @ [balance])
              else if fgt tomorrow_pred today_real then
                (let change = fdiv tomorrow_real today_real
                 in if fgt change (Fin 10) then Inr (balance, balances @ [balance])
                    else Inr (fmul balance change, balances @ [fmul balance change]))
              else Inr (balance, balances @ [balance]))"

definition simulate_profit_series :: "f64 list \<Rightarrow> f64 list \<Rightarrow> f64 \<Rightarrow> py_error + f64 list" where
  "simulate_profit_series y_true y_pred initial_balance =
     (case for_loop (simulate_profit_series_body y_true y_pred) [0..<length y_true - 1]
             (initial_balance, [initial_balance]) of
        Inl e \<Rightarrow> Inl e
      | Inr st \<Rightarrow> Inr (snd st))"

text \<open>
  \<^verbatim>\<open>simulate_hold_strategy\<close>: \<^verbatim>\<open>quantidade * y_true\<close> multiplies every entry of
  the array.
\<close>

definition simulate_hold_strategy :: "f64 list \<Rightarrow> f64 \<Rightarrow> f64 list" where
  "simulate_hold_strategy y_true initial_balance =
     (if length y_true < 2 then [initial_balance]
      else
        let preco_inicial = y_true ! 0;
            quantidade = fdiv initial_balance preco_inicial
        in map (\<lambda>p. fmul quantidade p) y_true)"

text \<open>
  Day \<open>i\<close> trades when it passes every test of the loop body and reaches
  \<^verbatim>\<open>balance *= change\<close>: the three values are numbers, both prices are above the
  floor, the prediction is above today's price and the change is not above 10.
\<close>

definition trades :: "f64 list \<Rightarrow> f64 list \<Rightarrow> nat \<Rightarrow> bool" where
  "trades y_true y_pred i =
     (\<not> isnan (y_true ! i) \<and> \<not> isnan (y_true ! (i + 1)) \<and> \<not> isnan (y_pred ! (i + 1))
      \<and> \<not> fle (y_true ! i) min_price \<and> \<not> fle (y_true ! (i + 1)) min_price
      \<and> fgt (y_pred ! (i + 1)) (y_true ! i)
      \<and> \<not> fgt (fdiv (y_true ! (i + 1)) (y_true ! i)) (Fin 10))"

text \<open>
  The product of two finite values underflows to zero when the exact product is at
  most \<open>2\<^sup>-\<^sup>1\<^sup>0\<^sup>7\<^sup>5\<close>, half of the smallest positive binary64 number.
\<close>

fun underflows :: "f64 \<Rightarrow> f64 \<Rightarrow> bool" where
  "underflows (Fin x) (Fin y) = (x * y * 2 ^ 1075 \<le> 1)"
| "underflows a b = False"

section \<open>Feature windowing\<close>






text \<open>
  \<^verbatim>\<open>series.shift(i)\<close> moves the values down by \<open>i\<close> rows: the first \<open>i\<close> rows are
  missing and the last \<open>i\<close> values are dropped.
\<close>

definition shift :: "nat \<Rightarrow> f64 list \<Rightarrow> f64 list" where
  "shift i col = replicate (min i (length col)) NaN @ take (length col - i) col"









section \<open>Cross-validated training\<close>

text \<open>
  A statement that may raise, followed by the rest of the block: the exception of
  the first ends the block.
\<close>

definition try_bind :: "py_error + 'a \<Rightarrow> ('a \<Rightarrow> py_error + 'b) \<Rightarrow> py_error + 'b" where
  "try_bind r f = (case r of Inl e \<Rightarrow> Inl e | Inr v \<Rightarrow> f v)"

text \<open>
  The calls of \<^verbatim>\<open>train_mlp_model\<close> in \<^verbatim>\<open>modules/models.py\<close> into scikit-learn,
  each of which may raise: the folds of \<^verbatim>\<open>KFold(n_splits=k, shuffle=True,
  random_state=42).split(X)\<close> as pairs of training and validation indices, fitting
  a new \<^verbatim>\<open>MLPRegressor\<close>, its predictions, and the two scores.
\<close>

record ('r, 'm) sklearn =
  kfold_split :: "int \<Rightarrow> nat \<Rightarrow> py_error + (nat list \<times> nat list) list"
  mlp_fit :: "'r list \<Rightarrow> f64 list \<Rightarrow> py_error + 'm"
  mlp_predict :: "'m \<Rightarrow> 'r list \<Rightarrow> py_error + f64 list"
  mean_squared_error :: "f64 list \<Rightarrow> f64 list \<Rightarrow> py_error + f64"
  r2_score :: "f64 list \<Rightarrow> f64 list \<Rightarrow> py_error + f64"

text \<open>\<^verbatim>\<open>X[idx]\<close> for an array of indices: the rows at these indices.\<close>

definition select :: "'a list \<Rightarrow> nat list \<Rightarrow> py_error + 'a list" where
  "select xs idx =
     (if list_all (\<lambda>i. i < length xs) idx then Inr (map (\<lambda>i. xs ! i) idx)
      else Inl IndexError)"

text \<open>
  The body of the loop over the folds up to the comparison: the candidate model of
  the fold and its validation error.
\<close>

definition fit_and_score ::
    "('r, 'm) sklearn \<Rightarrow> 'r list \<Rightarrow> f64 list \<Rightarrow> nat list \<times> nat list \<Rightarrow> py_error + 'm \<times> f64" where
  "fit_and_score sk X y fld =
     try_bind (select X (fst fld)) (\<lambda>X_train.
     try_bind (select X (snd fld)) (\<lambda>X_val.
     try_bind (select y (fst fld)) (\<lambda>y_train.
     try_bind (select y (snd fld)) (\<lambda>y_val.
     try_bind (mlp_fit sk X_train y_train) (\<lambda>model.
     try_bind (mlp_predict sk model X_val) (\<lambda>y_pred.
     try_bind (mean_squared_error sk y_val y_pred) (\<lambda>mse.
     try_bind (r2_score sk y_val y_pred) (\<lambda>r2.
     Inr (model, mse)))))))))"

text \<open>The loop over the folds; the state is \<open>(best_model, best_score)\<close>.\<close>

fun cv_loop ::
    "('r, 'm) sklearn \<Rightarrow> 'r list \<Rightarrow> f64 list \<Rightarrow> (nat list \<times> nat list) list
       \<Rightarrow> 'm option \<times> f64 \<Rightarrow> py_error + 'm option \<times> f64" where
  "cv_loop sk X y [] st = Inr st"
| "cv_loop sk X y (fld # folds) st =
     try_bind (fit_and_score sk X y fld) (\<lambda>cand.
       cv_loop sk X y folds
         (if flt (snd cand) (snd st) then (Some (fst cand), snd cand) else st))"

text \<open>
  \<^verbatim>\<open>train_mlp_model\<close>: the whole body is inside \<^verbatim>\<open>try\<close>, and
  \<^verbatim>\<open>except Exception\<close> logs the exception and returns \<^verbatim>\<open>None\<close>.
\<close>

definition train_mlp_model ::
    "('r, 'm) sklearn \<Rightarrow> 'r list \<Rightarrow> f64 list \<Rightarrow> int \<Rightarrow> 'm option" where
  "train_mlp_model sk X y k =
     (case try_bind (kfold_split sk k (length X))
             (\<lambda>folds. cv_loop sk X y folds (None, PInf)) of
        Inl e \<Rightarrow> None
      | Inr st \<Rightarrow> fst st)"

section \<open>Monthly mean-return test\<close>

text \<open>Subtraction of float64 values.\<close>

fun fsub :: "f64 \<Rightarrow> f64 \<Rightarrow> f64" where
  "fsub (Fin x) (Fin y) = rnd (x - y)"
| "fsub NaN b = NaN"
| "fsub a NaN = NaN"
| "fsub PInf PInf = NaN"
| "fsub NInf NInf = NaN"
| "fsub PInf b = PInf"
| "fsub NInf b = NInf"
| "fsub (Fin x) PInf = NInf"
| "fsub (Fin x) NInf = PInf"

text \<open>
  The calls of \<^verbatim>\<open>perform_mean_return_monthly_test\<close> in
  \<^verbatim>\<open>modules/hypothesis_tests.py\<close> into pandas, scipy and numpy, each of which may
  raise: the monthly percentage returns of a frame (sorting by date, the last
  closing price of each month, \<^verbatim>\<open>pct_change().dropna() * 100\<close>), the statistic and
  p-value of the Shapiro-Wilk test, the mean and the sample standard deviation of
  a series, the square root of a count and the distribution function of
  Student's t.
\<close>

record 'df stats_lib =
  monthly_pct_returns :: "'df \<Rightarrow> py_error + f64 list"
  shapiro :: "f64 list \<Rightarrow> py_error + f64 \<times> f64"
  series_mean :: "f64 list \<Rightarrow> py_error + f64"
  series_std :: "f64 list \<Rightarrow> py_error + f64"
  np_sqrt :: "nat \<Rightarrow> f64"
  t_cdf :: "f64 \<Rightarrow> nat \<Rightarrow> py_error + f64"

type_synonym test_result = "f64 \<times> f64 \<times> f64 \<times> bool"

text \<open>
  The body of the \<^verbatim>\<open>try\<close> block for one asset, up to the tuple it stores.
  \<^verbatim>\<open>monthly_returns[-6:]\<close> keeps the last 6 values.
\<close>

definition monthly_test_body ::
    "'df stats_lib \<Rightarrow> 'df \<Rightarrow> f64 \<Rightarrow> f64 \<Rightarrow> py_error + test_result" where
  "monthly_test_body lib df threshold_percent alpha =
     try_bind (monthly_pct_returns lib df) (\<lambda>all_returns.
       let monthly_returns = drop (length all_returns - 6) all_returns
       in if length monthly_returns < 3 then Inr (NaN, NaN, NaN, False)
          else
            try_bind (shapiro lib monthly_returns) (\<lambda>sw.
              let shapiro_p = snd sw
              in if fle alpha shapiro_p then
                   try_bind (series_mean lib monthly_returns) (\<lambda>sample_mean.
                   try_bind (series_std lib monthly_returns) (\<lambda>sample_std.
                     let n = length monthly_returns;
                         t_stat = fdiv (fsub sample_mean threshold_percent)
                                    (fdiv sample_std (np_sqrt lib n))
                     in try_bind (t_cdf lib t_stat (n - 1)) (\<lambda>p_value.
                          Inr (sample_mean, t_stat, p_value, flt p_value alpha))))
                 else
                   try_bind (series_mean lib monthly_returns) (\<lambda>sample_mean.
                     Inr (sample_mean, NaN, NaN, False))))"

text \<open>
  The loop over \<^verbatim>\<open>data.items()\<close>: an exception of the body is caught inside the
  loop and the asset gets the tuple \<^verbatim>\<open>(nan, nan, nan, False)\<close>.
\<close>

definition monthly_test_entry :: "'df stats_lib \<Rightarrow> 'df \<Rightarrow> f64 \<Rightarrow> f64 \<Rightarrow> test_result" where
  "monthly_test_entry lib df threshold_percent alpha =
     (case monthly_test_body lib df threshold_percent alpha of
        Inl e \<Rightarrow> (NaN, NaN, NaN, False)
      | Inr r \<Rightarrow> r)"

fun monthly_test_loop ::
    "'df stats_lib \<Rightarrow> (string \<times> 'df) list \<Rightarrow> f64 \<Rightarrow> f64 \<Rightarrow> (string \<rightharpoonup> test_result)
       \<Rightarrow> (string \<rightharpoonup> test_result)" where
  "monthly_test_loop lib [] threshold_percent alpha results = results"
| "monthly_test_loop lib (item # items) threshold_percent alpha results =
     monthly_test_loop lib items threshold_percent alpha
       (results(fst item \<mapsto> monthly_test_entry lib (snd item) threshold_percent alpha))"

text \<open>
  \<^verbatim>\<open>perform_mean_return_monthly_test\<close>; the dictionary \<open>data\<close> is the list of its
  items, in order.
\<close>

definition perform_mean_return_monthly_test ::
    "'df stats_lib \<Rightarrow> (string \<times> 'df) list \<Rightarrow> f64 \<Rightarrow> f64 \<Rightarrow> (string \<rightharpoonup> test_result)" where
  "perform_mean_return_monthly_test lib data threshold_percent alpha =
     monthly_test_loop lib data threshold_percent alpha Map.empty"

section \<open>Facts about rounding\<close>

text \<open>Evaluating the exponent search at a numeral bound.\<close>

lemma exp_up_numeral:
  "exp_up (numeral k) x = (if x < 2 then 0 else exp_up (pred_numeral k) (x / 2) + 1)"
  by (simp add: numeral_eq_Suc)

lemma exp_down_numeral:
  "exp_down (numeral k) x = (if 1 \<le> x then 0 else exp_down (pred_numeral k) (2 * x) - 1)"
  by (simp add: numeral_eq_Suc)

lemmas rnd_eval = rnd_def exponent_def round_even_def exp_up_numeral exp_down_numeral Let_def

lemma rnd_1: "rnd 1 = Fin 1"
  by (simp add: rnd_eval)

text \<open>Below the normal range the exponent stays at \<open>-1022\<close>, and at most half of the
  smallest subnormal number rounds to zero.\<close>

lemma exp_down_underflow: "0 \<le> x \<Longrightarrow> x * 2 ^ n < 1 \<Longrightarrow> exp_down n x = - int n"
proof (induction n arbitrary: x)
  case 0
  then show ?case by simp
next
  case (Suc n)
  have "1 \<le> (2::real) ^ Suc n" by (rule one_le_power) simp
  then have "x * 1 \<le> x * 2 ^ Suc n"
    using Suc.prems(1) by (intro mult_left_mono) simp_all
  with Suc.prems have "x < 1" by simp
  moreover have "exp_down n (2 * x) = - int n"
    using Suc.prems by (intro Suc.IH) (simp_all add: mult.assoc mult.commute)
  ultimately show ?case by simp
qed

lemma exponent_subnormal:
  assumes "0 \<le> x" and "x * 2 ^ 1022 < 1"
  shows "exponent x = - 1022"
proof -
  have "exp_down 1022 x = - int 1022"
    using assms by (rule exp_down_underflow)
  moreover have "\<bar>x\<bar> < 1"
    using assms by simp
  ultimately show ?thesis
    using assms(1) by (simp add: exponent_def)
qed

lemma rnd_eq:
  assumes "exponent x = e" and "round_even (x / 2 powi (e - 52)) = m"
    and "\<bar>of_int m * 2 powi (e - 52)\<bar> < (2::real) ^ 1024"
  shows "rnd x = Fin (of_int m * 2 powi (e - 52))"
  using assms by (simp add: rnd_def Let_def)

lemma round_even_small: "0 \<le> q \<Longrightarrow> q \<le> 1 / 2 \<Longrightarrow> round_even q = 0"
proof -
  assume q: "0 \<le> q" "q \<le> 1 / 2"
  then have "\<lfloor>q\<rfloor> = 0" by (simp add: floor_eq_iff)
  with q show ?thesis
    by (simp add: round_even_def Let_def)
qed

lemma rnd_underflow:
  assumes "0 \<le> x" and "x * 2 ^ 1075 \<le> 1"
  shows "rnd x = Fin 0"
proof -
  have e: "exponent x = - 1022"
    using assms by (intro exponent_subnormal) simp_all
  have "round_even (x / 2 powi (- 1022 - 52)) = 0"
    using assms by (intro round_even_small) simp_all
  from rnd_eq [OF e this] show ?thesis by simp
qed

lemma rnd_min_subnormal: "rnd (1 / 2 ^ 1074) = Fin (1 / 2 ^ 1074)"
proof -
  have e: "exponent (1 / 2 ^ 1074) = - 1022"
    by (intro exponent_subnormal) simp_all
  have "(1 / 2 ^ 1074) / 2 powi (- 1022 - 52) = (1::real)"
    by simp
  moreover have "round_even 1 = 1"
    by (simp add: round_even_def)
  ultimately have "round_even ((1 / 2 ^ 1074) / 2 powi (- 1022 - 52)) = 1"
    by (simp only:)
  from rnd_eq [OF e this] show ?thesis by simp
qed

text \<open>
  The unit in the last place of a positive number that is at least the smallest
  subnormal number is at most the number, so rounding keeps it positive; rounding
  never makes a non-negative number negative.
\<close>

lemma exp_down_ge1: "1 \<le> y \<Longrightarrow> exp_down n y = 0"
  by (cases n) simp_all

lemma powi_pred: "(2::real) powi (e - 1) = 2 powi e / 2"
  by (simp add: power_int_diff)

lemma powi_succ: "(2::real) powi (e + 1) = 2 powi e * 2"
  by (simp add: power_int_add)

lemma exp_down_spec:
  "0 < x \<Longrightarrow> x < 1 \<Longrightarrow> exp_down n x = - int n \<or> 2 powi (exp_down n x) \<le> x"
proof (induction n arbitrary: x)
  case 0
  then show ?case by simp
next
  case (Suc n)
  show ?case
  proof (cases "1 \<le> 2 * x")
    case True
    then have "exp_down (Suc n) x = - 1"
      using Suc.prems by (simp add: exp_down_ge1)
    moreover have "(2::real) powi (- 1) \<le> x"
      using True by simp
    ultimately show ?thesis by simp
  next
    case False
    then have "exp_down n (2 * x) = - int n \<or> 2 powi (exp_down n (2 * x)) \<le> 2 * x"
      using Suc.prems by (intro Suc.IH) simp_all
    then show ?thesis
      using Suc.prems by (auto simp: powi_pred)
  qed
qed

lemma exp_up_spec: "1 \<le> x \<Longrightarrow> 2 powi (exp_up n x) \<le> x"
proof (induction n arbitrary: x)
  case 0
  then show ?case by simp
next
  case (Suc n)
  show ?case
  proof (cases "x < 2")
    case True
    then show ?thesis using Suc.prems by simp
  next
    case False
    then have "2 powi (exp_up n (x / 2)) \<le> x / 2"
      by (intro Suc.IH) simp
    then show ?thesis
      using False by (simp add: powi_succ)
  qed
qed

lemma ulp_le:
  assumes "0 < x" and "1 \<le> x * 2 ^ 1074"
  shows "2 powi (exponent x - 52) \<le> x"
proof (cases "x < 1")
  case True
  then have e: "exponent x = exp_down 1022 x"
    using assms(1) by (simp add: exponent_def)
  from exp_down_spec [OF assms(1) True, of 1022]
  show ?thesis
  proof
    assume "exp_down 1022 x = - int 1022"
    with e have "exponent x - 52 = - 1074" by simp
    then show ?thesis using assms(2) by (simp add: field_simps)
  next
    assume "2 powi exp_down 1022 x \<le> x"
    moreover have "(2::real) powi (exponent x - 52) \<le> 2 powi (exponent x)"
      by (rule power_int_increasing) simp_all
    ultimately show ?thesis using e by simp
  qed
next
  case False
  then have e: "exponent x = exp_up 1024 x"
    using assms(1) by (simp add: exponent_def)
  have "2 powi exp_up 1024 x \<le> x"
    using False by (intro exp_up_spec) simp
  moreover have "(2::real) powi (exponent x - 52) \<le> 2 powi (exponent x)"
    by (rule power_int_increasing) simp_all
  ultimately show ?thesis using e by simp
qed

lemma round_even_nonneg: "0 \<le> q \<Longrightarrow> 0 \<le> round_even q"
proof -
  assume "0 \<le> q"
  then have "0 \<le> \<lfloor>q\<rfloor>" by simp
  then show ?thesis
    by (simp add: round_even_def Let_def)
qed

lemma round_even_pos: "1 \<le> q \<Longrightarrow> 1 \<le> round_even q"
proof -
  assume "1 \<le> q"
  then have "1 \<le> \<lfloor>q\<rfloor>" by simp
  then show ?thesis
    by (simp add: round_even_def Let_def)
qed

lemma rnd_nonneg:
  assumes "0 \<le> x"
  shows "fle (Fin 0) (rnd x)"
proof -
  define u :: real where "u = 2 powi (exponent x - 52)"
  have u: "0 < u" by (simp add: u_def)
  then have "0 \<le> x / u" using assms by simp
  then have "0 \<le> round_even (x / u)" by (rule round_even_nonneg)
  then have r: "0 \<le> of_int (round_even (x / u)) * u"
    using u by simp
  have "x \<noteq> 0 \<or> round_even (x / u) = 0"
    by (auto simp: round_even_def)
  then show ?thesis
    using r assms by (auto simp add: rnd_def Let_def simp flip: u_def)
qed

lemma rnd_pos:
  assumes "0 < x" and "1 \<le> x * 2 ^ 1074"
  shows "fgt (rnd x) (Fin 0)"
proof -
  define u :: real where "u = 2 powi (exponent x - 52)"
  have u: "0 < u" by (simp add: u_def)
  have "u \<le> x" unfolding u_def using assms by (rule ulp_le)
  then have "1 \<le> x / u" using u by simp
  then have "1 \<le> round_even (x / u)" by (rule round_even_pos)
  then have "0 < of_int (round_even (x / u)) * u"
    using u by simp
  then show ?thesis
    using assms(1) by (simp add: rnd_def Let_def fgt_def flip: u_def)
qed

lemma is_f64_bound: "is_f64 (Fin x) \<Longrightarrow> \<bar>x\<bar> < 2 ^ 1024"
  by (auto simp: rnd_def Let_def split: if_splits)

text \<open>
  A positive number rounds to zero exactly when it is at most half of the smallest
  positive binary64 number.
\<close>

lemma round_even_upper_half: "1 / 2 < q \<Longrightarrow> q < 1 \<Longrightarrow> round_even q = 1"
proof -
  assume q: "1 / 2 < q" "q < 1"
  then have "\<lfloor>q\<rfloor> = 0" by (simp add: floor_eq_iff)
  with q show ?thesis
    by (simp add: round_even_def Let_def)
qed

lemma rnd_pos_above_half:
  assumes "0 < x" and "1 < x * 2 ^ 1075"
  shows "fgt (rnd x) (Fin 0)"
proof (cases "1 \<le> x * 2 ^ 1074")
  case True
  with assms(1) show ?thesis by (rule rnd_pos)
next
  case False
  then have small: "x * 2 ^ 1074 < 1" by simp
  have e: "exponent x = - 1022"
    using assms(1) small by (intro exponent_subnormal) simp_all
  have "round_even (x / 2 powi (- 1022 - 52)) = 1"
    using assms(2) small by (intro round_even_upper_half) simp_all
  from rnd_eq [OF e this] show ?thesis
    by (simp add: fgt_def)
qed

lemma rnd_pos_iff: "0 < x \<Longrightarrow> fgt (rnd x) (Fin 0) \<longleftrightarrow> 1 < x * 2 ^ 1075"
proof
  assume "0 < x" and "fgt (rnd x) (Fin 0)"
  show "1 < x * 2 ^ 1075"
  proof (rule ccontr)
    assume "\<not> 1 < x * 2 ^ 1075"
    with \<open>0 < x\<close> have "rnd x = Fin 0"
      by (intro rnd_underflow) simp_all
    with \<open>fgt (rnd x) (Fin 0)\<close> show False by (simp add: fgt_def)
  qed
next
  assume "0 < x" and "1 < x * 2 ^ 1075"
  then show "fgt (rnd x) (Fin 0)" by (rule rnd_pos_above_half)
qed

section \<open>The two loops run in step\<close>

lemma for_loop_append:
  "for_loop body (is @ js) s =
     (case for_loop body is s of Inl e \<Rightarrow> Inl e | Inr s' \<Rightarrow> for_loop body js s')"
  by (induction "is" arbitrary: s) (auto split: sum.splits)

lemma series_body_eq:
  "simulate_profit_series_body y_true y_pred i (b, bs) =
     (case simulate_profit_body y_true y_pred i b of
        Inl e \<Rightarrow> Inl e
      | Inr b' \<Rightarrow> Inr (b', bs @ [b']))"
  by (simp add: simulate_profit_series_body_def simulate_profit_body_def Let_def)

lemma body_total:
  "i + 1 < length y_true \<Longrightarrow> i + 1 < length y_pred \<Longrightarrow>
     \<exists>b'. simulate_profit_body y_true y_pred i b = Inr b'"
  by (simp add: simulate_profit_body_def Let_def)

text \<open>
  After \<open>n\<close> days the list holds \<open>n + 1\<close> balances, starts with the initial
  balance, and each entry comes from the one before it by the body of the scalar
  loop.
\<close>

lemma series_run:
  assumes "n \<le> length y_true - 1" and "n \<le> length y_pred - 1"
  shows "\<exists>tr. for_loop (simulate_profit_series_body y_true y_pred) [0..<n] (b0, [b0])
                 = Inr (tr ! n, tr)
           \<and> length tr = Suc n \<and> tr ! 0 = b0
           \<and> (\<forall>i<n. simulate_profit_body y_true y_pred i (tr ! i) = Inr (tr ! Suc i))
           \<and> for_loop (simulate_profit_body y_true y_pred) [0..<n] b0 = Inr (tr ! n)"
  using assms
proof (induction n)
  case 0
  show ?case by (rule exI [of _ "[b0]"]) simp
next
  case (Suc n)
  then obtain tr where
    run: "for_loop (simulate_profit_series_body y_true y_pred) [0..<n] (b0, [b0]) = Inr (tr ! n, tr)"
    and len: "length tr = Suc n" and hd: "tr ! 0 = b0"
    and rec: "\<forall>i<n. simulate_profit_body y_true y_pred i (tr ! i) = Inr (tr ! Suc i)"
    and sc: "for_loop (simulate_profit_body y_true y_pred) [0..<n] b0 = Inr (tr ! n)"
    by auto
  from Suc.prems have "n + 1 < length y_true" "n + 1 < length y_pred" by auto
  then obtain b' where b': "simulate_profit_body y_true y_pred n (tr ! n) = Inr b'"
    using body_total by blast
  let ?tr = "tr @ [b']"
  have nth_old: "\<And>i. i \<le> n \<Longrightarrow> ?tr ! i = tr ! i"
    using len by (simp add: nth_append)
  have nth_new: "?tr ! Suc n = b'"
    using len by (simp add: nth_append)
  have "for_loop (simulate_profit_series_body y_true y_pred) [0..<Suc n] (b0, [b0])
          = Inr (?tr ! Suc n, ?tr)"
    using run b' nth_new by (simp add: for_loop_append series_body_eq)
  moreover have "length ?tr = Suc (Suc n)" using len by simp
  moreover have "?tr ! 0 = b0" using hd nth_old [of 0] by simp
  moreover have "\<forall>i<Suc n. simulate_profit_body y_true y_pred i (?tr ! i) = Inr (?tr ! Suc i)"
  proof (intro allI impI)
    fix i assume "i < Suc n"
    show "simulate_profit_body y_true y_pred i (?tr ! i) = Inr (?tr ! Suc i)"
    proof (cases "i = n")
      case True
      then show ?thesis using b' nth_old [of n] nth_new by simp
    next
      case False
      with \<open>i < Suc n\<close> have "i < n" by simp
      then show ?thesis using rec nth_old [of i] nth_old [of "Suc i"] by simp
    qed
  qed
  moreover have "for_loop (simulate_profit_body y_true y_pred) [0..<Suc n] b0 = Inr (?tr ! Suc n)"
    using sc b' nth_new by (simp add: for_loop_append)
  ultimately show ?case by blast
qed

lemma series_full:
  assumes "length y_true \<le> length y_pred"
  shows "\<exists>tr. simulate_profit_series y_true y_pred b0 = Inr tr
           \<and> length tr = Suc (length y_true - 1) \<and> tr ! 0 = b0
           \<and> (\<forall>i<length y_true - 1.
                 simulate_profit_body y_true y_pred i (tr ! i) = Inr (tr ! Suc i))
           \<and> simulate_profit_loop y_true y_pred b0 = Inr (tr ! (length y_true - 1))"
proof -
  from assms have paired: "length y_true - 1 \<le> length y_pred - 1" by simp
  obtain tr where
    "for_loop (simulate_profit_series_body y_true y_pred) [0..<length y_true - 1] (b0, [b0])
       = Inr (tr ! (length y_true - 1), tr)"
    "length tr = Suc (length y_true - 1)" "tr ! 0 = b0"
    "\<forall>i<length y_true - 1. simulate_profit_body y_true y_pred i (tr ! i) = Inr (tr ! Suc i)"
    "for_loop (simulate_profit_body y_true y_pred) [0..<length y_true - 1] b0
       = Inr (tr ! (length y_true - 1))"
    using series_run [OF order_refl paired] by blast
  then show ?thesis
    by (intro exI [of _ tr]) (simp add: simulate_profit_series_def simulate_profit_loop_def)
qed

text \<open>A day on which the price stays the same hands a binary64 balance back.\<close>

lemma fmul_one: "is_f64 b \<Longrightarrow> fmul b (Fin 1) = b"
  by (cases b) (simp_all add: isnan_def signed_inf_def)

lemma constant_day:
  assumes "i + 1 < length y_true" and "i + 1 < length y_pred"
    and "y_true ! (i + 1) = y_true ! i" and "is_f64 b"
  shows "simulate_profit_body y_true y_pred i b = Inr b"
proof (cases "y_true ! i")
  case (Fin r)
  show ?thesis
  proof (cases "r = 0")
    case True
    with Fin assms show ?thesis
      by (simp add: simulate_profit_body_def Let_def min_price_def)
  next
    case False
    then have "fdiv (Fin r) (Fin r) = Fin 1"
      by (simp add: rnd_1)
    with Fin assms show ?thesis
      by (simp add: simulate_profit_body_def Let_def fgt_def fmul_one)
  qed
next
  case NaN
  with assms show ?thesis
    by (simp add: simulate_profit_body_def Let_def isnan_def)
next
  case PInf
  with assms show ?thesis
    by (cases "y_pred ! (i + 1)") (simp_all add: simulate_profit_body_def Let_def fgt_def)
next
  case NInf
  with assms show ?thesis
    by (simp add: simulate_profit_body_def Let_def min_price_def)
qed

text \<open>
  A day never makes a non-negative balance negative or not-a-number: the change it
  applies is the rounded quotient of two binary64 prices above the floor, which is
  positive.
\<close>

lemma change_pos:
  assumes "is_f64 (Fin r)" and "1 < r" and "1 < s"
  shows "fgt (rnd (s / r)) (Fin 0)"
proof (rule rnd_pos)
  show "0 < s / r" using assms by simp
  have "r < 2 ^ 1024" using is_f64_bound [OF assms(1)] by simp
  then have "1 / 2 ^ 1024 < 1 / r"
    using assms(2) by (simp add: field_simps)
  also have "1 / r \<le> s / r"
    using assms(2,3) by (simp add: field_simps)
  finally have "1 / 2 ^ 1024 * 2 ^ 1074 \<le> s / r * (2::real) ^ 1074"
    by (intro mult_right_mono) simp_all
  moreover have "(1::real) \<le> 1 / 2 ^ 1024 * 2 ^ 1074"
    by simp
  ultimately show "1 \<le> s / r * 2 ^ 1074"
    by (rule order_trans [rotated])
qed

lemma fmul_nonneg:
  "fle (Fin 0) b \<Longrightarrow> fgt c (Fin 0) \<Longrightarrow> \<not> fgt c (Fin 10) \<Longrightarrow> fle (Fin 0) (fmul b c)"
  by (cases b; cases c) (simp_all add: fgt_def rnd_nonneg isnan_def signed_inf_def)

lemma traded_change_pos:
  assumes "is_f64 today" and "\<not> isnan today" and "\<not> isnan tomorrow"
    and "\<not> fle today min_price" and "\<not> fle tomorrow min_price" and "fgt pred today"
  shows "fgt (fdiv tomorrow today) (Fin 0)"
proof -
  from assms(2,4,6) obtain r where r: "today = Fin r" "1 < r"
    by (cases today; cases pred) (simp_all add: min_price_def fgt_def isnan_def)
  from assms(3,5) consider "tomorrow = PInf" | s where "tomorrow = Fin s" "1 < s"
    by (cases tomorrow) (simp_all add: min_price_def isnan_def)
  then show ?thesis
  proof cases
    case 1
    with r show ?thesis by (simp add: isnan_def signed_inf_def fgt_def)
  next
    case 2
    with r assms(1) show ?thesis
      using change_pos [of r s] by simp
  qed
qed

lemma body_nonneg:
  assumes "is_f64 (y_true ! i)" and "fle (Fin 0) b"
    and "simulate_profit_body y_true y_pred i b = Inr b'"
  shows "fle (Fin 0) b'"
proof (cases "b' = b")
  case True
  with assms(2) show ?thesis by simp
next
  case False
  with assms(3) have traded: "\<not> isnan (y_true ! i)" "\<not> isnan (y_true ! (i + 1))"
    "\<not> fle (y_true ! i) min_price" "\<not> fle (y_true ! (i + 1)) min_price"
    "fgt (y_pred ! (i + 1)) (y_true ! i)"
    "\<not> fgt (fdiv (y_true ! (i + 1)) (y_true ! i)) (Fin 10)"
    "b' = fmul b (fdiv (y_true ! (i + 1)) (y_true ! i))"
    by (auto simp: simulate_profit_body_def Let_def split: if_splits)
  from traded_change_pos [OF assms(1) traded(1-5)] assms(2) traded(6,7)
  show ?thesis by (simp add: fmul_nonneg)
qed

text \<open>A day that trades multiplies the balance by the change.\<close>

lemma body_trade:
  assumes "i + 1 < length y_true" and "i + 1 < length y_pred"
    and "\<not> isnan (y_true ! i)" and "\<not> isnan (y_true ! (i + 1))"
    and "\<not> isnan (y_pred ! (i + 1))"
    and "\<not> fle (y_true ! i) min_price" and "\<not> fle (y_true ! (i + 1)) min_price"
    and "fgt (y_pred ! (i + 1)) (y_true ! i)"
    and "\<not> fgt (fdiv (y_true ! (i + 1)) (y_true ! i)) (Fin 10)"
  shows "simulate_profit_body y_true y_pred i b
           = Inr (fmul b (fdiv (y_true ! (i + 1)) (y_true ! i)))"
  using assms by (simp add: simulate_profit_body_def Let_def)

text \<open>Each day of the series loop appends one entry and keeps the entries before it.\<close>

lemma series_loop_grows:
  "for_loop (simulate_profit_series_body y_true y_pred) ds (b, bs) = Inr st \<Longrightarrow>
     length (snd st) = length bs + length ds \<and> take (length bs) (snd st) = bs"
proof (induction ds arbitrary: b bs)
  case Nil
  then show ?case by auto
next
  case (Cons d ds)
  from Cons.prems obtain b' where
    step: "simulate_profit_body y_true y_pred d b = Inr b'"
    and rest: "for_loop (simulate_profit_series_body y_true y_pred) ds (b', bs @ [b']) = Inr st"
    by (auto simp: series_body_eq split: sum.splits)
  from Cons.IH [OF rest]
  have "length (snd st) = length (bs @ [b']) + length ds"
    and "take (length (bs @ [b'])) (snd st) = bs @ [b']"
    by simp_all
  then have "length (snd st) = length bs + length (d # ds)"
    and "take (length bs) (take (length (bs @ [b'])) (snd st)) = bs"
    by simp_all
  then show ?case by (simp add: min_def)
qed

text \<open>
  A day that does not trade keeps the balance; a day that trades keeps a positive
  balance positive exactly when its product does not underflow.
\<close>

lemma body_no_trade:
  "i + 1 < length y_true \<Longrightarrow> i + 1 < length y_pred \<Longrightarrow> \<not> trades y_true y_pred i \<Longrightarrow>
     simulate_profit_body y_true y_pred i b = Inr b"
  by (auto simp: simulate_profit_body_def trades_def Let_def)

lemma body_trades:
  "i + 1 < length y_true \<Longrightarrow> i + 1 < length y_pred \<Longrightarrow> trades y_true y_pred i \<Longrightarrow>
     simulate_profit_body y_true y_pred i b
       = Inr (fmul b (fdiv (y_true ! (i + 1)) (y_true ! i)))"
  by (rule body_trade) (simp_all add: trades_def)

lemma trades_change:
  assumes "is_f64 (y_true ! i)" and "trades y_true y_pred i"
  shows "fgt (fdiv (y_true ! (i + 1)) (y_true ! i)) (Fin 0)"
    and "fle (fdiv (y_true ! (i + 1)) (y_true ! i)) (Fin 10)"
proof -
  from assms(2) have t: "\<not> isnan (y_true ! i)" "\<not> isnan (y_true ! (i + 1))"
    "\<not> fle (y_true ! i) min_price" "\<not> fle (y_true ! (i + 1)) min_price"
    "fgt (y_pred ! (i + 1)) (y_true ! i)"
    and small: "\<not> fgt (fdiv (y_true ! (i + 1)) (y_true ! i)) (Fin 10)"
    by (simp_all add: trades_def)
  from assms(1) t show pos: "fgt (fdiv (y_true ! (i + 1)) (y_true ! i)) (Fin 0)"
    by (rule traded_change_pos)
  with small show "fle (fdiv (y_true ! (i + 1)) (y_true ! i)) (Fin 10)"
    by (cases "fdiv (y_true ! (i + 1)) (y_true ! i)") (simp_all add: fgt_def)
qed

lemma fmul_pos_iff:
  assumes "fgt b (Fin 0)" and "fgt c (Fin 0)" and "fle c (Fin 10)"
  shows "fgt (fmul b c) (Fin 0) \<longleftrightarrow> \<not> underflows b c"
proof -
  from assms(2,3) obtain y where c: "c = Fin y" and y: "0 < y"
    by (cases c) (simp_all add: fgt_def)
  from assms(1) consider "b = PInf" | x where "b = Fin x" "0 < x"
    by (cases b) (simp_all add: fgt_def)
  then show ?thesis
  proof cases
    case 1
    with c y show ?thesis
      by (simp add: fgt_def isnan_def signed_inf_def)
  next
    case 2
    with y have "0 < x * y" by simp
    from rnd_pos_iff [OF this] 2 c show ?thesis
      by (simp add: not_le)
  qed
qed

lemma body_pos_iff:
  assumes "is_f64 (y_true ! i)" and "i + 1 < length y_true" and "i + 1 < length y_pred"
    and "fgt b (Fin 0)" and "simulate_profit_body y_true y_pred i b = Inr b'"
  shows "fgt b' (Fin 0) \<longleftrightarrow>
           \<not> (trades y_true y_pred i \<and> underflows b (fdiv (y_true ! (i + 1)) (y_true ! i)))"
proof (cases "trades y_true y_pred i")
  case False
  with assms(2,3,5) have "b' = b"
    by (simp add: body_no_trade)
  with assms(4) False show ?thesis by simp
next
  case True
  with assms(2,3,5) have "b' = fmul b (fdiv (y_true ! (i + 1)) (y_true ! i))"
    by (simp add: body_trades)
  with fmul_pos_iff [OF assms(4) trades_change [OF assms(1) True]] True
  show ?thesis by simp
qed

text \<open>
  A trajectory is returned only when no read raises, and then it has the entries
  that the scalar loop goes through.
\<close>

lemma series_loop_raises:
  "i \<in> set ds \<Longrightarrow> length y_pred \<le> i + 1 \<Longrightarrow>
     \<exists>e. for_loop (simulate_profit_series_body y_true y_pred) ds st = Inl e"
proof (induction ds arbitrary: st)
  case Nil
  then show ?case by simp
next
  case (Cons d ds)
  show ?case
  proof (cases "simulate_profit_series_body y_true y_pred d st")
    case (Inl e)
    then show ?thesis by simp
  next
    case (Inr st')
    then have "d \<noteq> i"
      using Cons.prems(2) by (auto simp: simulate_profit_series_body_def Let_def)
    with Cons.prems have "i \<in> set ds" by simp
    from Cons.IH [OF this Cons.prems(2)] Inr show ?thesis by simp
  qed
qed

lemma series_returned:
  assumes "simulate_profit_series y_true y_pred b0 = Inr tr"
  shows "length tr = Suc (length y_true - 1)" and "tr ! 0 = b0"
    and "\<forall>i<length y_true - 1. i + 1 < length y_pred
           \<and> simulate_profit_body y_true y_pred i (tr ! i) = Inr (tr ! Suc i)"
    and "simulate_profit_loop y_true y_pred b0 = Inr (tr ! (length y_true - 1))"
proof -
  have paired: "length y_true - 1 \<le> length y_pred - 1"
  proof (rule ccontr)
    assume "\<not> length y_true - 1 \<le> length y_pred - 1"
    then have "length y_pred - 1 \<in> set [0..<length y_true - 1]"
      and "length y_pred \<le> length y_pred - 1 + 1"
      by simp_all
    from series_loop_raises [OF this, of y_true "(b0, [b0])"] obtain e where
      "for_loop (simulate_profit_series_body y_true y_pred) [0..<length y_true - 1] (b0, [b0])
         = Inl e"
      by blast
    with assms show False
      by (simp add: simulate_profit_series_def)
  qed
  from series_run [OF order_refl paired, of b0] obtain tr' where tr':
    "for_loop (simulate_profit_series_body y_true y_pred) [0..<length y_true - 1] (b0, [b0])
       = Inr (tr' ! (length y_true - 1), tr')"
    "length tr' = Suc (length y_true - 1)" "tr' ! 0 = b0"
    "\<forall>i<length y_true - 1. simulate_profit_body y_true y_pred i (tr' ! i) = Inr (tr' ! Suc i)"
    "for_loop (simulate_profit_body y_true y_pred) [0..<length y_true - 1] b0
       = Inr (tr' ! (length y_true - 1))"
    by blast
  from tr'(1) assms have eq: "tr' = tr"
    by (simp add: simulate_profit_series_def)
  from tr'(2,3) eq show "length tr = Suc (length y_true - 1)" and "tr ! 0 = b0"
    by simp_all
  from tr'(5) eq show "simulate_profit_loop y_true y_pred b0 = Inr (tr ! (length y_true - 1))"
    by (simp add: simulate_profit_loop_def)
  show "\<forall>i<length y_true - 1. i + 1 < length y_pred
      \<and> simulate_profit_body y_true y_pred i (tr ! i) = Inr (tr ! Suc i)"
  proof (intro allI impI conjI)
    fix i assume i: "i < length y_true - 1"
    with paired show "i + 1 < length y_pred" by simp
    from tr'(4) i eq show "simulate_profit_body y_true y_pred i (tr ! i) = Inr (tr ! Suc i)"
      by blast
  qed
qed

section \<open>Facts about feature windowing\<close>



lemma shift_length: "length (shift k col) = length col"
  by (simp add: shift_def)







section \<open>Claims about the profit simulation\<close>

text \<open>
  Claim C7. For every \<open>y_true\<close>, \<open>y_pred\<close> and initial balance, a trajectory returned by
  \<^verbatim>\<open>simulate_profit_series\<close> starts with the initial balance and has one entry per
  adjacent day pair plus the starting value: its length is
  \<open>1 + max (len y_true - 1) 0\<close>, whatever the steps do. A trajectory is returned
  whenever the prediction array is at least as long as the price array, so that
  no read raises.
\<close>

theorem series_length:
  "(\<forall>tr. simulate_profit_series y_true y_pred initial_balance = Inr tr \<longrightarrow>
      hd tr = initial_balance \<and> int (length tr) = 1 + max (int (length y_true) - 1) 0)
   \<and> (length y_true \<le> length y_pred \<longrightarrow>
        (\<exists>tr. simulate_profit_series y_true y_pred initial_balance = Inr tr))"
proof (intro conjI allI impI)
  fix tr
  assume "simulate_profit_series y_true y_pred initial_balance = Inr tr"
  then obtain st where
    "for_loop (simulate_profit_series_body y_true y_pred) [0..<length y_true - 1]
       (initial_balance, [initial_balance]) = Inr st" and "tr = snd st"
    by (auto simp: simulate_profit_series_def split: sum.splits)
  with series_loop_grows [of y_true y_pred "[0..<length y_true - 1]" initial_balance
      "[initial_balance]" st]
  have len: "length tr = 1 + (length y_true - 1)" and pre: "take 1 tr = [initial_balance]"
    by simp_all
  from pre show "hd tr = initial_balance"
    by (cases tr) simp_all
  from len show "int (length tr) = 1 + max (int (length y_true) - 1) 0"
    by (cases "length y_true") simp_all
next
  assume "length y_true \<le> length y_pred"
  from series_full [OF this]
  show "\<exists>tr. simulate_profit_series y_true y_pred initial_balance = Inr tr"
    by blast
qed

theorem series_length_witness:
  "\<exists>tr. simulate_profit_series [Fin 100, Fin 101, NaN] [Fin 0, Fin 102, Fin 5] (Fin 1000) = Inr tr
     \<and> hd tr = Fin 1000 \<and> int (length tr) = 3"
  using series_length [of "[Fin 100, Fin 101, NaN]" "[Fin 0, Fin 102, Fin 5]" "Fin 1000"]
  by auto

text \<open>
  Claim C1. For arrays of equal length and every initial balance,
  \<^verbatim>\<open>simulate_profit_series\<close> returns a non-empty trajectory whose last entry is the
  balance \<^verbatim>\<open>simulate_profit\<close> holds when its loop ends, before the rounding; so
  \<^verbatim>\<open>simulate_profit\<close> returns that last entry rounded to two decimals.
\<close>

theorem series_last_is_scalar:
  assumes "length y_pred = length y_true"
  shows "\<exists>tr. simulate_profit_series y_true y_pred initial_balance = Inr tr \<and> tr \<noteq> []
           \<and> simulate_profit_loop y_true y_pred initial_balance = Inr (last tr)
           \<and> simulate_profit round2 y_true y_pred initial_balance = Inr (round2 (last tr))"
proof -
  from assms have "length y_true \<le> length y_pred" by simp
  then obtain tr where tr: "simulate_profit_series y_true y_pred initial_balance = Inr tr"
    "length tr = Suc (length y_true - 1)"
    "simulate_profit_loop y_true y_pred initial_balance = Inr (tr ! (length y_true - 1))"
    using series_full by blast
  from tr(2) have ne: "tr \<noteq> []" by auto
  then have "last tr = tr ! (length y_true - 1)"
    using tr(2) by (simp add: last_conv_nth)
  then show ?thesis
    using tr(1,3) ne by (simp add: simulate_profit_def)
qed

theorem series_last_is_scalar_witness:
  "\<exists>tr. simulate_profit_series [Fin 100, Fin 101, Fin 99] [Fin 100, Fin 102, Fin 98] (Fin 1000)
           = Inr tr \<and> tr \<noteq> []
     \<and> simulate_profit_loop [Fin 100, Fin 101, Fin 99] [Fin 100, Fin 102, Fin 98] (Fin 1000)
           = Inr (last tr)
     \<and> simulate_profit (\<lambda>b. b) [Fin 100, Fin 101, Fin 99] [Fin 100, Fin 102, Fin 98] (Fin 1000)
           = Inr (last tr)"
  using series_last_is_scalar [of "[Fin 100, Fin 102, Fin 98]" "[Fin 100, Fin 101, Fin 99]"
      "Fin 1000" "\<lambda>b. b"]
  by simp

text \<open>
  A day whose body hands every balance back unchanged leaves the run where it was,
  in both modes: the trajectory repeats its entry, and the scalar loop run through
  day \<open>i\<close> ends where the loop run up to day \<open>i\<close> ended.
\<close>

lemma unchanged_day:
  assumes "length y_true \<le> length y_pred" and "i + 1 < length y_true"
    and "\<And>b. simulate_profit_body y_true y_pred i b = Inr b"
  shows "(\<exists>tr. simulate_profit_series y_true y_pred b0 = Inr tr \<and> tr ! (i + 1) = tr ! i)
       \<and> for_loop (simulate_profit_body y_true y_pred) [0..<i + 1] b0
           = for_loop (simulate_profit_body y_true y_pred) [0..<i] b0"
proof -
  obtain tr where tr: "simulate_profit_series y_true y_pred b0 = Inr tr"
    "\<forall>i<length y_true - 1. simulate_profit_body y_true y_pred i (tr ! i) = Inr (tr ! Suc i)"
    using series_full [OF assms(1)] by blast
  from assms(2) have "i < length y_true - 1" by simp
  with tr(2) have "simulate_profit_body y_true y_pred i (tr ! i) = Inr (tr ! Suc i)" by blast
  with assms(3) have "tr ! (i + 1) = tr ! i" by simp
  moreover have "for_loop (simulate_profit_body y_true y_pred) [0..<i + 1] b0
      = for_loop (simulate_profit_body y_true y_pred) [0..<i] b0"
    using assms(3) by (simp add: for_loop_append split: sum.splits)
  ultimately show ?thesis using tr(1) by blast
qed

text \<open>
  Claim C3. On a day \<open>i\<close> with \<open>y_pred[i+1] \<le> y_true[i]\<close> the body of either loop
  leaves the balance unchanged (the series loop appends it as it is): no trade is
  made, whatever the prices are. So the trajectory has the same entry at \<open>i\<close> and
  \<open>i + 1\<close>, and the scalar loop has the same balance after day \<open>i\<close> as before it.
\<close>

theorem no_signal_no_trade:
  assumes "length y_pred = length y_true" and "i + 1 < length y_true"
    and "fle (y_pred ! (i + 1)) (y_true ! i)"
  shows "simulate_profit_body y_true y_pred i balance = Inr balance
       \<and> simulate_profit_series_body y_true y_pred i (balance, balances)
           = Inr (balance, balances @ [balance])
       \<and> (\<exists>tr. simulate_profit_series y_true y_pred initial_balance = Inr tr
              \<and> tr ! (i + 1) = tr ! i)
       \<and> for_loop (simulate_profit_body y_true y_pred) [0..<i + 1] initial_balance
           = for_loop (simulate_profit_body y_true y_pred) [0..<i] initial_balance"
proof -
  from assms(3) have "\<not> fgt (y_pred ! (i + 1)) (y_true ! i)"
    by (cases "y_pred ! (i + 1)"; cases "y_true ! i") (simp_all add: fgt_def)
  with assms(1,2) have body: "\<And>b. simulate_profit_body y_true y_pred i b = Inr b"
    by (simp add: simulate_profit_body_def Let_def)
  from assms(1) have "length y_true \<le> length y_pred" by simp
  from unchanged_day [OF this assms(2) body] body show ?thesis
    by (simp add: series_body_eq)
qed

theorem no_signal_no_trade_witness:
  "simulate_profit_body [Fin 100, Fin 120] [Fin 100, Fin 90] 0 (Fin 1000) = Inr (Fin 1000)
     \<and> simulate_profit_series_body [Fin 100, Fin 120] [Fin 100, Fin 90] 0 (Fin 1000, [Fin 1000])
         = Inr (Fin 1000, [Fin 1000, Fin 1000])
     \<and> (\<exists>tr. simulate_profit_series [Fin 100, Fin 120] [Fin 100, Fin 90] (Fin 1000) = Inr tr
            \<and> tr ! 1 = tr ! 0)"
  using no_signal_no_trade [of "[Fin 100, Fin 90]" "[Fin 100, Fin 120]" 0 "Fin 1000" "[Fin 1000]"
      "Fin 1000"]
  by simp

text \<open>
  Claim C2. On a day \<open>i\<close> whose real price change \<open>y_true[i+1] / y_true[i]\<close> exceeds
  10, the body of either loop leaves the balance unchanged, whether the prediction
  signals a trade or not. So the trajectory has the same entry at \<open>i\<close> and \<open>i + 1\<close>,
  and the scalar loop has the same balance after day \<open>i\<close> as before it.
\<close>

theorem anomaly_never_compounded:
  assumes "length y_pred = length y_true" and "i + 1 < length y_true"
    and "fgt (fdiv (y_true ! (i + 1)) (y_true ! i)) (Fin 10)"
  shows "simulate_profit_body y_true y_pred i balance = Inr balance
       \<and> simulate_profit_series_body y_true y_pred i (balance, balances)
           = Inr (balance, balances @ [balance])
       \<and> (\<exists>tr. simulate_profit_series y_true y_pred initial_balance = Inr tr
              \<and> tr ! (i + 1) = tr ! i)
       \<and> for_loop (simulate_profit_body y_true y_pred) [0..<i + 1] initial_balance
           = for_loop (simulate_profit_body y_true y_pred) [0..<i] initial_balance"
proof -
  from assms have body: "\<And>b. simulate_profit_body y_true y_pred i b = Inr b"
    by (simp add: simulate_profit_body_def Let_def)
  from assms(1) have "length y_true \<le> length y_pred" by simp
  from unchanged_day [OF this assms(2) body] body show ?thesis
    by (simp add: series_body_eq)
qed

theorem anomaly_never_compounded_witness:
  "fgt (fdiv (Fin 1200) (Fin 100)) (Fin 10)
     \<and> simulate_profit_body [Fin 100, Fin 1200] [Fin 100, Fin 150] 0 (Fin 1000) = Inr (Fin 1000)
     \<and> simulate_profit_series_body [Fin 100, Fin 1200] [Fin 100, Fin 150] 0 (Fin 1000, [Fin 1000])
         = Inr (Fin 1000, [Fin 1000, Fin 1000])
     \<and> (\<exists>tr. simulate_profit_series [Fin 100, Fin 1200] [Fin 100, Fin 150] (Fin 1000) = Inr tr
            \<and> tr ! 1 = tr ! 0)"
proof -
  have "fgt (fdiv (Fin 1200) (Fin 100)) (Fin 10)"
    by (simp add: rnd_eval fgt_def)
  then show ?thesis
    using anomaly_never_compounded [of "[Fin 100, Fin 150]" "[Fin 100, Fin 1200]" 0 "Fin 1000"
        "[Fin 1000]" "Fin 1000"]
    by simp
qed

text \<open>
  Claim C4. For a constant price series (\<open>y_true[i] = y_true[i+1]\<close> for all \<open>i\<close>),
  every prediction array of the same length and every binary64 initial balance,
  \<^verbatim>\<open>simulate_profit\<close> returns the initial balance rounded to two decimals and every
  entry of the trajectory of \<^verbatim>\<open>simulate_profit_series\<close> is the initial balance.
\<close>

theorem constant_prices_keep_balance:
  assumes "length y_pred = length y_true"
    and "\<forall>i. i + 1 < length y_true \<longrightarrow> y_true ! (i + 1) = y_true ! i"
    and "is_f64 initial_balance"
  shows "simulate_profit round2 y_true y_pred initial_balance = Inr (round2 initial_balance)
       \<and> simulate_profit_series y_true y_pred initial_balance
           = Inr (replicate (Suc (length y_true - 1)) initial_balance)"
proof -
  from assms(1) have "length y_true \<le> length y_pred" by simp
  then obtain tr where tr: "simulate_profit_series y_true y_pred initial_balance = Inr tr"
    "length tr = Suc (length y_true - 1)" "tr ! 0 = initial_balance"
    "\<forall>i<length y_true - 1. simulate_profit_body y_true y_pred i (tr ! i) = Inr (tr ! Suc i)"
    "simulate_profit_loop y_true y_pred initial_balance = Inr (tr ! (length y_true - 1))"
    using series_full by blast
  have all: "k \<le> length y_true - 1 \<Longrightarrow> tr ! k = initial_balance" for k
  proof (induction k)
    case 0
    show ?case by (rule tr(3))
  next
    case (Suc k)
    then have k: "k < length y_true - 1" and prev: "tr ! k = initial_balance" by simp_all
    from k have r1: "k + 1 < length y_true" by simp
    with assms(1) have r2: "k + 1 < length y_pred" by simp
    from r1 assms(2) have "y_true ! (k + 1) = y_true ! k" by blast
    with r1 r2
    have "simulate_profit_body y_true y_pred k initial_balance = Inr initial_balance"
      using assms(3) by (rule constant_day)
    moreover from tr(4) k
    have "simulate_profit_body y_true y_pred k (tr ! k) = Inr (tr ! Suc k)" by blast
    ultimately show ?case by (simp only: prev sum.inject)
  qed
  have "\<forall>k<length tr. tr ! k = replicate (Suc (length y_true - 1)) initial_balance ! k"
  proof (intro allI impI)
    fix k assume "k < length tr"
    with tr(2) have k: "k < Suc (length y_true - 1)" by simp
    then have "replicate (Suc (length y_true - 1)) initial_balance ! k = initial_balance"
      by (rule nth_replicate)
    moreover from k have "tr ! k = initial_balance"
      by (intro all) simp
    ultimately show "tr ! k = replicate (Suc (length y_true - 1)) initial_balance ! k"
      by (simp only:)
  qed
  with tr(2) have "tr = replicate (Suc (length y_true - 1)) initial_balance"
    by (simp only: list_eq_iff_nth_eq length_replicate)
  moreover have "tr ! (length y_true - 1) = initial_balance"
    by (rule all) simp
  ultimately show ?thesis
    using tr(1,5) by (simp add: simulate_profit_def)
qed

theorem constant_prices_keep_balance_witness:
  "is_f64 (Fin 1000)
     \<and> simulate_profit (\<lambda>b. b) [Fin 100, Fin 100, Fin 100] [Fin 100, Fin 101, Fin 99] (Fin 1000)
         = Inr (Fin 1000)
     \<and> simulate_profit_series [Fin 100, Fin 100, Fin 100] [Fin 100, Fin 101, Fin 99] (Fin 1000)
         = Inr [Fin 1000, Fin 1000, Fin 1000]"
proof -
  have b: "is_f64 (Fin 1000)"
    by (simp add: rnd_eval)
  have c: "\<forall>i. i + 1 < length [Fin 100, Fin 100, Fin 100]
             \<longrightarrow> [Fin 100, Fin 100, Fin 100] ! (i + 1) = [Fin 100, Fin 100, Fin 100] ! i"
    by (simp add: nth_Cons split: nat.splits)
  from b constant_prices_keep_balance [of "[Fin 100, Fin 101, Fin 99]"
      "[Fin 100, Fin 100, Fin 100]" "Fin 1000" "\<lambda>b. b", OF _ c b]
  show ?thesis by (simp add: numeral_eq_Suc)
qed

text \<open>
  Claim C6. For a price series of at least 2 points whose first price is not zero,
  \<^verbatim>\<open>simulate_hold_strategy\<close> returns a trajectory as long as the series whose entry
  \<open>i\<close> is \<open>(initial_balance / y_true[0]) * y_true[i]\<close>; for a series of fewer than 2
  points it returns the one-element trajectory \<open>[initial_balance]\<close>.
\<close>

theorem hold_strategy_trajectory:
  "(2 \<le> length y_true \<and> y_true ! 0 \<noteq> Fin 0 \<longrightarrow>
      length (simulate_hold_strategy y_true initial_balance) = length y_true
      \<and> (\<forall>i<length y_true.
            simulate_hold_strategy y_true initial_balance ! i
              = fmul (fdiv initial_balance (y_true ! 0)) (y_true ! i)))
   \<and> (length y_true < 2 \<longrightarrow> simulate_hold_strategy y_true initial_balance = [initial_balance])"
  by (simp add: simulate_hold_strategy_def Let_def)

theorem hold_strategy_trajectory_witness:
  "length (simulate_hold_strategy [Fin 2, Fin 4, Fin 1] (Fin 1000)) = 3
     \<and> simulate_hold_strategy [Fin 2, Fin 4, Fin 1] (Fin 1000) ! 1 = Fin 2000
     \<and> simulate_hold_strategy [Fin 2] (Fin 1000) = [Fin 1000]"
proof -
  have r: "rnd 500 = Fin 500" "rnd 2000 = Fin 2000"
    by (simp_all add: rnd_eval)
  have h: "2 \<le> length [Fin 2, Fin 4, Fin 1] \<and> [Fin 2, Fin 4, Fin 1] ! 0 \<noteq> Fin 0"
    by simp
  from hold_strategy_trajectory [of "[Fin 2, Fin 4, Fin 1]" "Fin 1000"] h
  have len: "length (simulate_hold_strategy [Fin 2, Fin 4, Fin 1] (Fin 1000))
      = length [Fin 2, Fin 4, Fin 1]"
    and ent: "\<forall>i<length [Fin 2, Fin 4, Fin 1].
      simulate_hold_strategy [Fin 2, Fin 4, Fin 1] (Fin 1000) ! i
        = fmul (fdiv (Fin 1000) ([Fin 2, Fin 4, Fin 1] ! 0)) ([Fin 2, Fin 4, Fin 1] ! i)"
    by blast+
  from ent [rule_format, of 1]
  have "simulate_hold_strategy [Fin 2, Fin 4, Fin 1] (Fin 1000) ! 1 = Fin 2000"
    by (simp add: r)
  moreover from hold_strategy_trajectory [of "[Fin 2]" "Fin 1000"]
  have "simulate_hold_strategy [Fin 2] (Fin 1000) = [Fin 1000]"
    by simp
  ultimately show ?thesis using len by simp
qed

text \<open>
  Claim C10, as the code has it. For binary64 prices and an initial balance above
  zero, a trajectory is returned whenever the prediction array is at least as long
  as the price array, and every trajectory that \<^verbatim>\<open>simulate_profit_series\<close> returns
  has these properties. Its last entry is the balance of \<^verbatim>\<open>simulate_profit\<close> before
  the rounding. No entry is negative or not-a-number. After an entry above zero
  the next entry is above zero unless the day trades and its product
  \<open>balance * change\<close> underflows, the exact product being at most \<open>2\<^sup>-\<^sup>1\<^sup>0\<^sup>7\<^sup>5\<close>; so
  when no traded product underflows every entry is above zero. On every day that
  trades the change \<open>tomorrow_real / today_real\<close> is above zero and at most 10.
\<close>

theorem balance_positive_unless_underflow:
  assumes "\<forall>y\<in>set y_true. is_f64 y" and "fgt initial_balance (Fin 0)"
  shows "(length y_true \<le> length y_pred \<longrightarrow>
            (\<exists>tr. simulate_profit_series y_true y_pred initial_balance = Inr tr))
       \<and> (\<forall>tr. simulate_profit_series y_true y_pred initial_balance = Inr tr \<longrightarrow>
              simulate_profit_loop y_true y_pred initial_balance = Inr (last tr)
              \<and> (\<forall>b\<in>set tr. fle (Fin 0) b)
              \<and> (\<forall>i. i + 1 < length tr \<and> fgt (tr ! i) (Fin 0) \<longrightarrow>
                    (fgt (tr ! (i + 1)) (Fin 0) \<longleftrightarrow>
                       \<not> (trades y_true y_pred i
                          \<and> underflows (tr ! i) (fdiv (y_true ! (i + 1)) (y_true ! i)))))
              \<and> ((\<forall>i. i + 1 < length tr \<longrightarrow>
                      \<not> (trades y_true y_pred i
                         \<and> underflows (tr ! i) (fdiv (y_true ! (i + 1)) (y_true ! i))))
                   \<longrightarrow> (\<forall>b\<in>set tr. fgt b (Fin 0)))
              \<and> (\<forall>i. i + 1 < length tr \<and> trades y_true y_pred i \<longrightarrow>
                    fgt (fdiv (y_true ! (i + 1)) (y_true ! i)) (Fin 0)
                    \<and> fle (fdiv (y_true ! (i + 1)) (y_true ! i)) (Fin 10)))"
proof (intro conjI allI impI)
  assume "length y_true \<le> length y_pred"
  from series_full [OF this]
  show "\<exists>tr. simulate_profit_series y_true y_pred initial_balance = Inr tr"
    by blast
next
  fix tr
  assume run: "simulate_profit_series y_true y_pred initial_balance = Inr tr"
  note len = series_returned(1) [OF run] and start = series_returned(2) [OF run]
    and rec = series_returned(3) [OF run] and scalar = series_returned(4) [OF run]
  have prices: "is_f64 (y_true ! i)" if "i < length y_true - 1" for i
  proof -
    from that have "y_true ! i \<in> set y_true" by (intro nth_mem) simp
    with assms(1) show ?thesis by blast
  qed
  have step: "i + 1 < length y_true \<and> i + 1 < length y_pred
      \<and> simulate_profit_body y_true y_pred i (tr ! i) = Inr (tr ! (i + 1))"
    if "i + 1 < length tr" for i
  proof -
    from that len have "i < length y_true - 1" by simp
    with rec show ?thesis by simp
  qed
  from len have "tr \<noteq> []" by auto
  then have "last tr = tr ! (length y_true - 1)"
    using len by (simp add: last_conv_nth)
  with scalar show "simulate_profit_loop y_true y_pred initial_balance = Inr (last tr)"
    by (simp only:)
  from assms(2) have start0: "fle (Fin 0) initial_balance"
    by (cases initial_balance) (simp_all add: fgt_def)
  have nonneg: "k < length tr \<Longrightarrow> fle (Fin 0) (tr ! k)" for k
  proof (induction k)
    case 0
    show ?case using start0 by (simp only: start)
  next
    case (Suc k)
    then have k: "k + 1 < length tr" and prev: "fle (Fin 0) (tr ! k)" by simp_all
    from k len have "k < length y_true - 1" by simp
    then have f: "is_f64 (y_true ! k)" by (rule prices)
    from step [OF k]
    have "simulate_profit_body y_true y_pred k (tr ! k) = Inr (tr ! Suc k)" by simp
    with f prev show ?case by (rule body_nonneg)
  qed
  show "\<forall>b\<in>set tr. fle (Fin 0) b"
  proof
    fix b assume "b \<in> set tr"
    then obtain k where "k < length tr" and b: "tr ! k = b"
      by (auto simp: in_set_conv_nth)
    then have "fle (Fin 0) (tr ! k)" by (intro nonneg)
    then show "fle (Fin 0) b" by (simp only: b)
  qed
  have keep: "fgt (tr ! (i + 1)) (Fin 0) \<longleftrightarrow>
      \<not> (trades y_true y_pred i \<and> underflows (tr ! i) (fdiv (y_true ! (i + 1)) (y_true ! i)))"
    if i: "i + 1 < length tr" and pos: "fgt (tr ! i) (Fin 0)" for i
  proof -
    from i len have "i < length y_true - 1" by simp
    then have f: "is_f64 (y_true ! i)" by (rule prices)
    from step [OF i] have r1: "i + 1 < length y_true" and r2: "i + 1 < length y_pred"
      and b: "simulate_profit_body y_true y_pred i (tr ! i) = Inr (tr ! (i + 1))"
      by simp_all
    from f r1 r2 pos b show ?thesis by (rule body_pos_iff)
  qed
  then show "fgt (tr ! (i + 1)) (Fin 0) \<longleftrightarrow>
      \<not> (trades y_true y_pred i \<and> underflows (tr ! i) (fdiv (y_true ! (i + 1)) (y_true ! i)))"
    if "i + 1 < length tr \<and> fgt (tr ! i) (Fin 0)" for i
    using that by blast
  show "\<forall>b\<in>set tr. fgt b (Fin 0)"
    if none: "\<forall>i. i + 1 < length tr \<longrightarrow>
      \<not> (trades y_true y_pred i \<and> underflows (tr ! i) (fdiv (y_true ! (i + 1)) (y_true ! i)))"
  proof
    have pos: "k < length tr \<Longrightarrow> fgt (tr ! k) (Fin 0)" for k
    proof (induction k)
      case 0
      show ?case using assms(2) by (simp only: start)
    next
      case (Suc k)
      then have k: "k + 1 < length tr" and prev: "fgt (tr ! k) (Fin 0)" by simp_all
      from none k have "\<not> (trades y_true y_pred k
          \<and> underflows (tr ! k) (fdiv (y_true ! (k + 1)) (y_true ! k)))"
        by blast
      with keep [OF k prev] show ?case by simp
    qed
    fix b assume "b \<in> set tr"
    then obtain k where "k < length tr" and b: "tr ! k = b"
      by (auto simp: in_set_conv_nth)
    then have "fgt (tr ! k) (Fin 0)" by (intro pos)
    then show "fgt b (Fin 0)" by (simp only: b)
  qed
  show "fgt (fdiv (y_true ! (i + 1)) (y_true ! i)) (Fin 0)"
    if "i + 1 < length tr \<and> trades y_true y_pred i" for i
  proof -
    from that len have "i < length y_true - 1" by simp
    then have f: "is_f64 (y_true ! i)" by (rule prices)
    from that have t: "trades y_true y_pred i" by simp
    from f t show ?thesis by (rule trades_change(1))
  qed
  show "fle (fdiv (y_true ! (i + 1)) (y_true ! i)) (Fin 10)"
    if "i + 1 < length tr \<and> trades y_true y_pred i" for i
  proof -
    from that len have "i < length y_true - 1" by simp
    then have f: "is_f64 (y_true ! i)" by (rule prices)
    from that have t: "trades y_true y_pred i" by simp
    from f t show ?thesis by (rule trades_change(2))
  qed
qed

theorem balance_positive_unless_underflow_witness:
  "fgt (Fin 1000) (Fin 0) \<and> is_f64 (Fin 4) \<and> is_f64 (Fin 2)
     \<and> simulate_profit_series [Fin 4, Fin 2] [Fin 0, Fin 5] (Fin 1000)
         = Inr [Fin 1000, Fin 500]
     \<and> simulate_profit_loop [Fin 4, Fin 2] [Fin 0, Fin 5] (Fin 1000) = Inr (Fin 500)
     \<and> trades [Fin 4, Fin 2] [Fin 0, Fin 5] 0
     \<and> \<not> underflows (Fin 1000) (Fin (1 / 2))
     \<and> fgt (Fin 500) (Fin 0)
     \<and> fgt (Fin (1 / 2)) (Fin 0) \<and> fle (Fin (1 / 2)) (Fin 10)"
proof -
  have f: "\<forall>y\<in>set [Fin 4, Fin 2]. is_f64 y"
    by (simp add: rnd_eval)
  have g: "fgt (Fin 1000) (Fin 0)"
    by (simp add: fgt_def)
  have change: "fdiv (Fin 2) (Fin 4) = Fin (1 / 2)"
    by (simp add: rnd_eval)
  have product: "fmul (Fin 1000) (Fin (1 / 2)) = Fin 500"
    by (simp add: rnd_eval)
  have nth: "[Fin 4, Fin 2] ! (0 + 1) = Fin 2" "[Fin 4, Fin 2] ! 0 = Fin 4"
    "[Fin 0, Fin 5] ! (0 + 1) = Fin 5"
    by simp_all
  have t: "trades [Fin 4, Fin 2] [Fin 0, Fin 5] 0"
    unfolding trades_def nth change
    by (simp add: isnan_def min_price_def fgt_def)
  have "simulate_profit_body [Fin 4, Fin 2] [Fin 0, Fin 5] 0 (Fin 1000)
      = Inr (fmul (Fin 1000) (fdiv ([Fin 4, Fin 2] ! (0 + 1)) ([Fin 4, Fin 2] ! 0)))"
    using t by (intro body_trades) simp_all
  then have body: "simulate_profit_body [Fin 4, Fin 2] [Fin 0, Fin 5] 0 (Fin 1000)
      = Inr (Fin 500)"
    unfolding nth change product .
  have series: "simulate_profit_series [Fin 4, Fin 2] [Fin 0, Fin 5] (Fin 1000)
      = Inr [Fin 1000, Fin 500]"
    using body by (simp add: simulate_profit_series_def series_body_eq)
  note th = balance_positive_unless_underflow [OF f g, of "[Fin 0, Fin 5]",
      THEN conjunct2, THEN spec, THEN mp, OF series]
  from th have "simulate_profit_loop [Fin 4, Fin 2] [Fin 0, Fin 5] (Fin 1000)
      = Inr (last [Fin 1000, Fin 500])"
    by (rule conjunct1)
  then have loop: "simulate_profit_loop [Fin 4, Fin 2] [Fin 0, Fin 5] (Fin 1000)
      = Inr (Fin 500)"
    by simp
  have no: "\<not> underflows (Fin 1000) (Fin (1 / 2))"
    by simp
  from th [THEN conjunct2, THEN conjunct2, THEN conjunct1, THEN spec, of 0]
  have "fgt ([Fin 1000, Fin 500] ! (0 + 1)) (Fin 0) \<longleftrightarrow>
      \<not> (trades [Fin 4, Fin 2] [Fin 0, Fin 5] 0
         \<and> underflows ([Fin 1000, Fin 500] ! 0)
             (fdiv ([Fin 4, Fin 2] ! (0 + 1)) ([Fin 4, Fin 2] ! 0)))"
    using g by simp
  then have pos: "fgt (Fin 500) (Fin 0)"
    unfolding nth change using no by simp
  from th [THEN conjunct2, THEN conjunct2, THEN conjunct2, THEN conjunct2, THEN spec, of 0] t
  have "fgt (fdiv ([Fin 4, Fin 2] ! (0 + 1)) ([Fin 4, Fin 2] ! 0)) (Fin 0)
      \<and> fle (fdiv ([Fin 4, Fin 2] ! (0 + 1)) ([Fin 4, Fin 2] ! 0)) (Fin 10)"
    by simp
  then have mult: "fgt (Fin (1 / 2)) (Fin 0) \<and> fle (Fin (1 / 2)) (Fin 10)"
    unfolding nth change .
  from f have prices: "is_f64 (Fin 4) \<and> is_f64 (Fin 2)"
    by simp
  from g prices series loop t no pos mult show ?thesis
    by (intro conjI) (erule conjunct1 conjunct2 | assumption)+
qed

text \<open>
  The balance can reach zero. From the smallest positive binary64 number,
  \<open>2\<^sup>-\<^sup>1\<^sup>0\<^sup>7\<^sup>4\<close>, one trade at the change \<open>2 / 4 = 0.5\<close> gives the product
  \<open>2\<^sup>-\<^sup>1\<^sup>0\<^sup>7\<^sup>5\<close>, which rounds to zero: the trajectory ends in an entry that is not
  above zero.
\<close>

theorem balance_positive_counterexample:
  "is_f64 (Fin (1 / 2 ^ 1074)) \<and> fgt (Fin (1 / 2 ^ 1074)) (Fin 0)
     \<and> is_f64 (Fin 4) \<and> is_f64 (Fin 2) \<and> is_f64 (Fin 0) \<and> is_f64 (Fin 5)
     \<and> simulate_profit_series [Fin 4, Fin 2] [Fin 0, Fin 5] (Fin (1 / 2 ^ 1074))
         = Inr [Fin (1 / 2 ^ 1074), Fin 0]
     \<and> simulate_profit_loop [Fin 4, Fin 2] [Fin 0, Fin 5] (Fin (1 / 2 ^ 1074)) = Inr (Fin 0)
     \<and> \<not> fgt (Fin 0) (Fin 0)"
proof -
  have small: "is_f64 (Fin (1 / 2 ^ 1074))"
    using rnd_min_subnormal by simp
  have others: "is_f64 (Fin 4)" "is_f64 (Fin 2)" "is_f64 (Fin 0)" "is_f64 (Fin 5)"
    by (simp_all add: rnd_eval)
  have change: "fdiv (Fin 2) (Fin 4) = Fin (1 / 2)"
    by (simp add: rnd_eval)
  have "rnd (1 / 2 ^ 1074 * (1 / 2)) = Fin 0"
    by (rule rnd_underflow) simp_all
  then have product: "fmul (Fin (1 / 2 ^ 1074)) (Fin (1 / 2)) = Fin 0"
    by (simp only: fmul.simps)
  have t: "[Fin 4, Fin 2] ! (0 + 1) = Fin 2" "[Fin 4, Fin 2] ! 0 = Fin 4"
    "[Fin 0, Fin 5] ! (0 + 1) = Fin 5"
    by simp_all
  have "simulate_profit_body [Fin 4, Fin 2] [Fin 0, Fin 5] 0 b
      = Inr (fmul b (fdiv ([Fin 4, Fin 2] ! (0 + 1)) ([Fin 4, Fin 2] ! 0)))" for b
  proof (rule body_trade)
    show "\<not> fgt (fdiv ([Fin 4, Fin 2] ! (0 + 1)) ([Fin 4, Fin 2] ! 0)) (Fin 10)"
      unfolding t change by (simp add: fgt_def)
  qed (simp_all add: isnan_def min_price_def fgt_def)
  then have body: "simulate_profit_body [Fin 4, Fin 2] [Fin 0, Fin 5] 0 b
      = Inr (fmul b (Fin (1 / 2)))" for b
    unfolding t change .
  have loop: "simulate_profit_loop [Fin 4, Fin 2] [Fin 0, Fin 5] b
      = Inr (fmul b (Fin (1 / 2)))" for b
    using body [of b] by (simp add: simulate_profit_loop_def)
  have series: "simulate_profit_series [Fin 4, Fin 2] [Fin 0, Fin 5] b
      = Inr [b, fmul b (Fin (1 / 2))]" for b
    using body [of b] by (simp add: simulate_profit_series_def series_body_eq)
  have pos: "fgt (Fin (1 / 2 ^ 1074)) (Fin 0)" and zero: "\<not> fgt (Fin 0) (Fin 0)"
    by (simp_all add: fgt_def)
  show ?thesis
    unfolding loop series product
    using small others pos zero by (intro conjI refl)
qed

section \<open>Claims about feature windowing\<close>




section \<open>Claims about training and the monthly test\<close>

lemma cv_loop_raises:
  "fld \<in> set folds \<Longrightarrow> fit_and_score sk X y fld = Inl e \<Longrightarrow>
     \<exists>e'. cv_loop sk X y folds st = Inl e'"
proof (induction folds arbitrary: st)
  case Nil
  then show ?case by simp
next
  case (Cons f folds)
  show ?case
  proof (cases "fit_and_score sk X y f")
    case (Inl e1)
    then show ?thesis by (simp add: try_bind_def)
  next
    case (Inr cand)
    with Cons.prems have "fld \<in> set folds" by auto
    from Cons.IH [OF this Cons.prems(2)] Inr show ?thesis
      by (simp add: try_bind_def)
  qed
qed

text \<open>
  Claim C8. When selecting, fitting or scoring the candidate of any fold raises,
  \<^verbatim>\<open>train_mlp_model\<close> returns \<^verbatim>\<open>None\<close>: no candidate of an earlier fold is
  returned.
\<close>

theorem training_failure_returns_none:
  assumes "kfold_split sk k (length X) = Inr folds" and "fld \<in> set folds"
    and "fit_and_score sk X y fld = Inl e"
  shows "train_mlp_model sk X y k = None"
proof -
  obtain e' where "cv_loop sk X y folds (None, PInf) = Inl e'"
    using cv_loop_raises [OF assms(2,3)] by blast
  with assms(1) show ?thesis
    by (simp add: train_mlp_model_def try_bind_def)
qed

theorem training_failure_returns_none_witness:
  "fit_and_score
     \<lparr>kfold_split = \<lambda>k n. Inr [([1], [0]), ([0], [1])],
      mlp_fit = \<lambda>Xt yt. if yt = [Fin 2] then Inr (7::nat) else Inl ValueError,
      mlp_predict = \<lambda>m Xv. Inr [Fin 0],
      mean_squared_error = \<lambda>yv yp. Inr (Fin 1),
      r2_score = \<lambda>yv yp. Inr (Fin 0)\<rparr>
     [10, 20 :: nat] [Fin 1, Fin 2] ([1], [0]) = Inr (7, Fin 1)
   \<and> fit_and_score
     \<lparr>kfold_split = \<lambda>k n. Inr [([1], [0]), ([0], [1])],
      mlp_fit = \<lambda>Xt yt. if yt = [Fin 2] then Inr (7::nat) else Inl ValueError,
      mlp_predict = \<lambda>m Xv. Inr [Fin 0],
      mean_squared_error = \<lambda>yv yp. Inr (Fin 1),
      r2_score = \<lambda>yv yp. Inr (Fin 0)\<rparr>
     [10, 20 :: nat] [Fin 1, Fin 2] ([0], [1]) = Inl ValueError
   \<and> train_mlp_model
     \<lparr>kfold_split = \<lambda>k n. Inr [([1], [0]), ([0], [1])],
      mlp_fit = \<lambda>Xt yt. if yt = [Fin 2] then Inr (7::nat) else Inl ValueError,
      mlp_predict = \<lambda>m Xv. Inr [Fin 0],
      mean_squared_error = \<lambda>yv yp. Inr (Fin 1),
      r2_score = \<lambda>yv yp. Inr (Fin 0)\<rparr>
     [10, 20 :: nat] [Fin 1, Fin 2] 2 = None"
proof -
  let ?sk = "\<lparr>kfold_split = \<lambda>k n. Inr [([1], [0]), ([0], [1])],
      mlp_fit = \<lambda>Xt yt. if yt = [Fin 2] then Inr (7::nat) else Inl ValueError,
      mlp_predict = \<lambda>m Xv. Inr [Fin 0],
      mean_squared_error = \<lambda>yv yp. Inr (Fin 1),
      r2_score = \<lambda>yv yp. Inr (Fin 0)\<rparr> :: (nat, nat) sklearn"
  have ok: "fit_and_score ?sk [10, 20] [Fin 1, Fin 2] ([1], [0]) = Inr (7, Fin 1)"
    by (simp add: fit_and_score_def try_bind_def select_def)
  have bad: "fit_and_score ?sk [10, 20] [Fin 1, Fin 2] ([0], [1]) = Inl ValueError"
    by (simp add: fit_and_score_def try_bind_def select_def)
  have "kfold_split ?sk 2 (length [10, 20 :: nat]) = Inr [([1], [0]), ([0], [1])]"
    by simp
  from training_failure_returns_none [OF this _ bad] ok bad show ?thesis
    by simp
qed

lemma monthly_test_loop_dom:
  "dom (monthly_test_loop lib items thr alpha results) = dom results \<union> fst ` set items"
  by (induction items arbitrary: results) auto

lemma monthly_test_loop_other:
  "coin \<notin> fst ` set items \<Longrightarrow>
     monthly_test_loop lib items thr alpha results coin = results coin"
  by (induction items arbitrary: results) auto

lemma monthly_test_loop_entry:
  "distinct (map fst items) \<Longrightarrow> (coin, df) \<in> set items \<Longrightarrow>
     monthly_test_loop lib items thr alpha results coin
       = Some (monthly_test_entry lib df thr alpha)"
proof (induction items arbitrary: results)
  case Nil
  then show ?case by simp
next
  case (Cons item items)
  show ?case
  proof (cases "item = (coin, df)")
    case True
    with Cons.prems(1) have "coin \<notin> fst ` set items" by auto
    then show ?thesis using True by (simp add: monthly_test_loop_other)
  next
    case False
    with Cons.prems have "distinct (map fst items)" "(coin, df) \<in> set items" by auto
    then show ?thesis by (simp add: Cons.IH)
  qed
qed

text \<open>
  Claim C9. The function returns a mapping and raises nothing. For a dictionary
  \<open>data\<close> (its keys are distinct) and an asset whose frame gives fewer than 3
  monthly returns among the last 6, the entry of the asset is
  \<^verbatim>\<open>(nan, nan, nan, False)\<close>, and every asset of \<open>data\<close> has an entry: the loop goes on
  to the other assets.
\<close>

theorem insufficient_monthly_data:
  assumes "distinct (map fst data)" and "(coin, df) \<in> set data"
    and "monthly_pct_returns lib df = Inr all_returns"
    and "length (drop (length all_returns - 6) all_returns) < 3"
  shows "perform_mean_return_monthly_test lib data threshold_percent alpha coin
           = Some (NaN, NaN, NaN, False)
       \<and> dom (perform_mean_return_monthly_test lib data threshold_percent alpha)
           = fst ` set data"
proof -
  from assms(4) have "length all_returns < 3"
    by simp
  with assms(3)
  have "monthly_test_body lib df threshold_percent alpha = Inr (NaN, NaN, NaN, False)"
    by (simp add: monthly_test_body_def try_bind_def Let_def)
  then have "monthly_test_entry lib df threshold_percent alpha = (NaN, NaN, NaN, False)"
    by (simp add: monthly_test_entry_def)
  with monthly_test_loop_entry [OF assms(1,2)] show ?thesis
    by (simp add: perform_mean_return_monthly_test_def monthly_test_loop_dom)
qed

theorem insufficient_monthly_data_witness:
  "perform_mean_return_monthly_test
     \<lparr>monthly_pct_returns = \<lambda>df. Inr df,
      shapiro = \<lambda>rs. Inr (Fin 1, Fin 1),
      series_mean = \<lambda>rs. Inr (Fin 2),
      series_std = \<lambda>rs. Inl ValueError,
      np_sqrt = \<lambda>n. Fin 2,
      t_cdf = \<lambda>t n. Inr (Fin 0)\<rparr>
     [(''SHORT'', [Fin 1, Fin 3]), (''BTC'', [Fin 1, Fin 3, Fin 2, Fin 5])] (Fin 0) (Fin 2)
     ''SHORT'' = Some (NaN, NaN, NaN, False)
   \<and> dom (perform_mean_return_monthly_test
     \<lparr>monthly_pct_returns = \<lambda>df. Inr df,
      shapiro = \<lambda>rs. Inr (Fin 1, Fin 1),
      series_mean = \<lambda>rs. Inr (Fin 2),
      series_std = \<lambda>rs. Inl ValueError,
      np_sqrt = \<lambda>n. Fin 2,
      t_cdf = \<lambda>t n. Inr (Fin 0)\<rparr>
     [(''SHORT'', [Fin 1, Fin 3]), (''BTC'', [Fin 1, Fin 3, Fin 2, Fin 5])] (Fin 0) (Fin 2))
     = {''SHORT'', ''BTC''}
   \<and> perform_mean_return_monthly_test
     \<lparr>monthly_pct_returns = \<lambda>df. Inr df,
      shapiro = \<lambda>rs. Inr (Fin 1, Fin 1),
      series_mean = \<lambda>rs. Inr (Fin 2),
      series_std = \<lambda>rs. Inl ValueError,
      np_sqrt = \<lambda>n. Fin 2,
      t_cdf = \<lambda>t n. Inr (Fin 0)\<rparr>
     [(''SHORT'', [Fin 1, Fin 3]), (''BTC'', [Fin 1, Fin 3, Fin 2, Fin 5])] (Fin 0) (Fin 2)
     ''BTC'' = Some (Fin 2, NaN, NaN, False)"
proof -
  let ?lib = "\<lparr>monthly_pct_returns = \<lambda>df. Inr df,
      shapiro = \<lambda>rs. Inr (Fin 1, Fin 1),
      series_mean = \<lambda>rs. Inr (Fin 2),
      series_std = \<lambda>rs. Inl ValueError,
      np_sqrt = \<lambda>n. Fin 2,
      t_cdf = \<lambda>t n. Inr (Fin 0)\<rparr> :: (f64 list) stats_lib"
  let ?data = "[(''SHORT'', [Fin 1, Fin 3]), (''BTC'', [Fin 1, Fin 3, Fin 2, Fin 5])]"
  have d: "distinct (map fst ?data)" and m: "(''SHORT'', [Fin 1, Fin 3]) \<in> set ?data"
    by simp_all
  have r: "monthly_pct_returns ?lib [Fin 1, Fin 3] = Inr [Fin 1, Fin 3]"
    by simp
  have s: "length (drop (length [Fin 1, Fin 3 :: f64] - 6) [Fin 1, Fin 3 :: f64]) < 3"
    by simp
  have other: "perform_mean_return_monthly_test ?lib ?data (Fin 0) (Fin 2) ''BTC''
      = Some (Fin 2, NaN, NaN, False)"
    by (simp add: perform_mean_return_monthly_test_def monthly_test_entry_def
        monthly_test_body_def try_bind_def Let_def)
  from insufficient_monthly_data [OF d m r s, of "Fin 0" "Fin 2"] other show ?thesis
    by auto
qed

end
